theory Spec2Isabelle
  imports Complex_Main "HOL-Library.Multiset"
begin

section \<open>The classification goal of a decision forest (df/goals.py)\<close>

text \<open>
  The source is Python 2 on an early numpy: \<open>answer\<close> indexes the list returned by
  \<open>map\<close>, the weights are tested with \<open>weights != None\<close>, and the comment in
  \<open>stats\<close> says that numpy 1.6.0 is not yet common. The numpy functions are modelled as
  they behave there.

  Numbers. The arrays hold single-precision floats. Rounding and overflow are left out:
  a finite float is an exact real. What is kept of IEEE arithmetic is what the source
  can observe without rounding: the two infinities and NaN, which division by zero and
  the logarithm of zero produce (with a warning, never an exception). Zero has no sign
  here.
\<close>

subsection \<open>Floats\<close>

datatype npfloat = Fin real | PInf | NInf | NaN

fun fneg :: "npfloat \<Rightarrow> npfloat" where
  "fneg (Fin x) = Fin (- x)"
| "fneg PInf = NInf"
| "fneg NInf = PInf"
| "fneg NaN = NaN"

fun fadd :: "npfloat \<Rightarrow> npfloat \<Rightarrow> npfloat" where
  "fadd (Fin x) (Fin y) = Fin (x + y)"
| "fadd NaN _ = NaN"
| "fadd _ NaN = NaN"
| "fadd PInf NInf = NaN"
| "fadd NInf PInf = NaN"
| "fadd PInf _ = PInf"
| "fadd _ PInf = PInf"
| "fadd NInf _ = NInf"
| "fadd _ NInf = NInf"

definition fsub :: "npfloat \<Rightarrow> npfloat \<Rightarrow> npfloat" where
  "fsub x y = fadd x (fneg y)"

text \<open>An infinity times a finite number: zero gives NaN, otherwise the signs multiply.\<close>

definition inf_times :: "bool \<Rightarrow> real \<Rightarrow> npfloat" where
  "inf_times positive y =
     (if y = 0 then NaN else if (0 < y) = positive then PInf else NInf)"

fun fmul :: "npfloat \<Rightarrow> npfloat \<Rightarrow> npfloat" where
  "fmul (Fin x) (Fin y) = Fin (x * y)"
| "fmul NaN _ = NaN"
| "fmul _ NaN = NaN"
| "fmul PInf (Fin y) = inf_times True y"
| "fmul NInf (Fin y) = inf_times False y"
| "fmul (Fin x) PInf = inf_times True x"
| "fmul (Fin x) NInf = inf_times False x"
| "fmul PInf PInf = PInf"
| "fmul NInf NInf = PInf"
| "fmul PInf NInf = NInf"
| "fmul NInf PInf = NInf"

fun fdiv :: "npfloat \<Rightarrow> npfloat \<Rightarrow> npfloat" where
  "fdiv (Fin x) (Fin y) =
     (if y = 0 then (if x = 0 then NaN else if 0 < x then PInf else NInf)
      else Fin (x / y))"
| "fdiv NaN _ = NaN"
| "fdiv _ NaN = NaN"
| "fdiv (Fin x) PInf = Fin 0"
| "fdiv (Fin x) NInf = Fin 0"
| "fdiv PInf (Fin y) = (if 0 \<le> y then PInf else NInf)"
| "fdiv NInf (Fin y) = (if 0 \<le> y then NInf else PInf)"
| "fdiv PInf _ = NaN"
| "fdiv NInf _ = NaN"

fun flog :: "npfloat \<Rightarrow> npfloat" where
  "flog (Fin x) = (if 0 < x then Fin (ln x) else if x = 0 then NInf else NaN)"
| "flog PInf = PInf"
| "flog NInf = NaN"
| "flog NaN = NaN"

text \<open>Comparisons: every comparison with NaN is false.\<close>

fun fgt :: "npfloat \<Rightarrow> npfloat \<Rightarrow> bool" where
  "fgt (Fin x) (Fin y) = (y < x)"
| "fgt NaN _ = False"
| "fgt _ NaN = False"
| "fgt PInf PInf = False"
| "fgt PInf _ = True"
| "fgt NInf _ = False"
| "fgt (Fin x) PInf = False"
| "fgt (Fin x) NInf = True"

fun fle :: "npfloat \<Rightarrow> npfloat \<Rightarrow> bool" where
  "fle NaN _ = False"
| "fle _ NaN = False"
| "fle x y = (\<not> fgt x y)"

subsection \<open>Errors\<close>

text \<open>
  The exceptions the modelled calls raise. Those named \<open>ValueError\<close> are numpy's
  \<open>ValueError\<close>, told apart by where they come from.
\<close>

datatype pyerror =
    ValueError_bincount_empty
  | ValueError_bincount_negative
  | ValueError_bincount_weights
  | ValueError_negative_dimensions
  | ValueError_string_size
  | ValueError_shape_mismatch
  | ValueError_argmax_empty
  | IndexError
  | NameError

subsection \<open>Arrays and byte strings\<close>

text \<open>
  A one-dimensional float array is the list of its entries. A byte string that holds
  float data is kept as the entries of its complete 4-byte cells, in order, and the
  number of bytes (fewer than four) left after the last complete cell: with rounding
  left out, that is all \<open>tostring\<close> and \<open>fromstring\<close> can tell about it.
\<close>

datatype buffer = Buffer (cells: "npfloat list") (spare: nat)

definition nbytes :: "buffer \<Rightarrow> nat" where
  "nbytes b = 4 * length (cells b) + spare b"

definition tostring :: "npfloat list \<Rightarrow> buffer" where
  "tostring arr = Buffer arr 0"

text \<open>
  \<open>numpy.fromstring(s, dtype=numpy.float32)\<close>: a string whose size is not a multiple of
  the element size is refused; any other length is taken.
\<close>

definition fromstring :: "buffer \<Rightarrow> pyerror + npfloat list" where
  "fromstring b =
     (if nbytes b mod 4 \<noteq> 0 then Inl ValueError_string_size else Inr (cells b))"

definition zeros :: "int \<Rightarrow> pyerror + npfloat list" where
  "zeros n =
     (if n < 0 then Inl ValueError_negative_dimensions else Inr (replicate (nat n) (Fin 0)))"

definition fsum :: "npfloat list \<Rightarrow> npfloat" where
  "fsum xs = foldl fadd (Fin 0) xs"

text \<open>\<open>a op= b\<close> on arrays: \<open>b\<close> must have the shape of \<open>a\<close> or a single entry.\<close>

definition inplace :: "(npfloat \<Rightarrow> npfloat \<Rightarrow> npfloat) \<Rightarrow> npfloat list \<Rightarrow> npfloat list
    \<Rightarrow> pyerror + npfloat list" where
  "inplace f a b =
     (if length b = length a then Inr (map2 f a b)
      else if length b = 1 then Inr (map (\<lambda>x. f x (hd b)) a)
      else Inl ValueError_shape_mismatch)"

text \<open>\<open>a op b\<close> on arrays: equal shapes, or one of them with a single entry.\<close>

definition broadcast :: "(npfloat \<Rightarrow> npfloat \<Rightarrow> npfloat) \<Rightarrow> npfloat list \<Rightarrow> npfloat list
    \<Rightarrow> pyerror + npfloat list" where
  "broadcast f a b =
     (if length a = length b then Inr (map2 f a b)
      else if length b = 1 then Inr (map (\<lambda>x. f x (hd b)) a)
      else if length a = 1 then Inr (map (\<lambda>y. f (hd a) y) b)
      else Inl ValueError_shape_mismatch)"

text \<open>
  \<open>numpy.bincount(x, weights)\<close> of that time: an empty first argument and a negative
  entry are refused, the weights must be as many as the entries, and the result has
  \<open>max x + 1\<close> bins. Without weights every entry counts 1 (the integer counts are
  converted to floats by the \<open>asarray\<close> that follows in the source).
\<close>

definition bincount :: "int list \<Rightarrow> npfloat list option \<Rightarrow> pyerror + npfloat list" where
  "bincount x weights =
     (if x = [] then Inl ValueError_bincount_empty
      else if list_ex (\<lambda>v. v < 0) x then Inl ValueError_bincount_negative
      else
        (let w = (case weights of None \<Rightarrow> replicate (length x) (Fin 1) | Some ws \<Rightarrow> ws)
         in if length w \<noteq> length x then Inl ValueError_bincount_weights
            else Inr (foldl (\<lambda>ans (v, wv). ans[nat v := fadd (ans ! nat v) wv])
                       (replicate (nat (foldr max x 0) + 1) (Fin 0)) (zip x w))))"

text \<open>
  \<open>argmax\<close>: the first maximum; a NaN counts as maximal and ends the search.
\<close>

fun argmax_from :: "npfloat \<Rightarrow> nat \<Rightarrow> nat \<Rightarrow> npfloat list \<Rightarrow> nat" where
  "argmax_from mp max_ind i [] = max_ind"
| "argmax_from mp max_ind i (v # vs) =
     (if mp = NaN then max_ind
      else if \<not> fle v mp then argmax_from v i (i + 1) vs
      else argmax_from mp max_ind (i + 1) vs)"

fun argmax :: "npfloat list \<Rightarrow> pyerror + nat" where
  "argmax [] = Inl ValueError_argmax_empty"
| "argmax (v # vs) = Inr (argmax_from v 0 1 vs)"

subsection \<open>The exemplar set and the weights\<close>

text \<open>
  The exemplar set is outside the source: \<open>es[channel, index, 0]\<close> gives the label of
  every exemplar of \<open>index\<close> in the channel. Here it is a lookup that has no value where
  the channel or the exemplar does not exist, and the access fails then.
\<close>

type_synonym exemplars = "int \<Rightarrow> nat \<Rightarrow> int option"

fun lookup_all :: "(nat \<Rightarrow> 'a option) \<Rightarrow> nat list \<Rightarrow> pyerror + 'a list" where
  "lookup_all f [] = Inr []"
| "lookup_all f (i # is) =
     (case f i of
        None \<Rightarrow> Inl IndexError
      | Some v \<Rightarrow> (case lookup_all f is of Inl e \<Rightarrow> Inl e | Inr vs \<Rightarrow> Inr (v # vs)))"

definition nth_opt :: "'a list \<Rightarrow> nat \<Rightarrow> 'a option" where
  "nth_opt xs i = (if i < length xs then Some (xs ! i) else None)"

subsection \<open>Classification\<close>

record Classification =
  classCount :: int
  channel :: int

definition init :: "int \<Rightarrow> int \<Rightarrow> pyerror + Classification" where
  "init cc ch = Inr \<lparr> classCount = cc, channel = ch \<rparr>"

definition clone :: "Classification \<Rightarrow> pyerror + Classification" where
  "clone self = init (classCount self) (channel self)"

text \<open>
  The call that \<open>stats\<close>, \<open>updateStats\<close>, \<open>summary\<close> and \<open>updateSummary\<close> share:
  \<open>numpy.bincount(es[self.channel, index, 0], weights = weights[index] if weights != None else None)\<close>.
\<close>

definition bincount_of :: "Classification \<Rightarrow> exemplars \<Rightarrow> nat list \<Rightarrow> npfloat list option
    \<Rightarrow> pyerror + npfloat list" where
  "bincount_of self es index weights =
     (case lookup_all (es (channel self)) index of
        Inl e \<Rightarrow> Inl e
      | Inr labels \<Rightarrow>
          (case weights of
             None \<Rightarrow> bincount labels None
           | Some w \<Rightarrow>
               (case lookup_all (nth_opt w) index of
                  Inl e \<Rightarrow> Inl e
                | Inr wi \<Rightarrow> bincount labels (Some wi))))"

text \<open>The padding with zeros up to \<open>classCount\<close> entries; a longer array is left as it is.\<close>

definition pad :: "Classification \<Rightarrow> npfloat list \<Rightarrow> npfloat list" where
  "pad self ret =
     (if int (length ret) < classCount self
      then ret @ replicate (nat (classCount self - int (length ret))) (Fin 0)
      else ret)"

definition stats :: "Classification \<Rightarrow> exemplars \<Rightarrow> nat list \<Rightarrow> npfloat list option
    \<Rightarrow> pyerror + buffer" where
  "stats self es index weights =
     (case (if length index \<noteq> 0 then bincount_of self es index weights
            else zeros (classCount self)) of
        Inl e \<Rightarrow> Inl e
      | Inr ret \<Rightarrow> Inr (tostring (pad self ret)))"

definition updateStats :: "Classification \<Rightarrow> buffer \<Rightarrow> exemplars \<Rightarrow> nat list
    \<Rightarrow> npfloat list option \<Rightarrow> pyerror + buffer" where
  "updateStats self st es index weights =
     (case fromstring st of
        Inl e \<Rightarrow> Inl e
      | Inr ret \<Rightarrow>
          (case bincount_of self es index weights of
             Inl e \<Rightarrow> Inl e
           | Inr toAdd \<Rightarrow>
               (case inplace fadd (take (length toAdd) ret) toAdd of
                  Inl e \<Rightarrow> Inl e
                | Inr low \<Rightarrow> Inr (tostring (low @ drop (length toAdd) ret)))))"

definition entropy :: "Classification \<Rightarrow> buffer \<Rightarrow> pyerror + npfloat" where
  "entropy self st =
     (case fromstring st of
        Inl e \<Rightarrow> Inl e
      | Inr hist \<Rightarrow>
          (let dst = map (\<lambda>v. fdiv v (fsum hist))
                        (filter (\<lambda>v. fgt v (Fin (1 / 1000000))) hist)
           in Inr (fneg (fsum (map (\<lambda>p. fmul p (flog p)) dst)))))"

definition answer_types :: "Classification \<Rightarrow> (string \<times> string) list" where
  "answer_types self =
     [(''best'', ''An integer indexing the class this feature is most likelly to belong to given the model.''),
      (''prob'', ''A categorical distribution over class membership, represented as a numpy array of float32 type. Gives the probability of it belonging to each class.'')]"

text \<open>
  \<open>which\<close> is one name or a list of names; an answer is the distribution, a class index,
  or Python's \<open>None\<close>; the result is one answer or a tuple of them.
\<close>

datatype which = Name string | Names "string list"

datatype answer_value = Prob "npfloat list" | Best nat | PyNone

datatype answer_result = One answer_value | Tuple "answer_value list"

text \<open>The loop \<open>for stats in stats_list: ... prob += dist / dist.sum()\<close>.\<close>

fun accumulate :: "npfloat list \<Rightarrow> buffer list \<Rightarrow> pyerror + npfloat list" where
  "accumulate prob [] = Inr prob"
| "accumulate prob (st # rest) =
     (case fromstring st of
        Inl e \<Rightarrow> Inl e
      | Inr hist \<Rightarrow>
          (case inplace fadd prob (map (\<lambda>v. fdiv v (fsum hist)) hist) of
             Inl e \<Rightarrow> Inl e
           | Inr prob' \<Rightarrow> accumulate prob' rest))"

definition combined :: "Classification \<Rightarrow> buffer list \<Rightarrow> pyerror + npfloat list" where
  "combined self stats_list =
     (case zeros (classCount self) of
        Inl e \<Rightarrow> Inl e
      | Inr z \<Rightarrow>
          (case accumulate z stats_list of
             Inl e \<Rightarrow> Inl e
           | Inr prob \<Rightarrow> Inr (map (\<lambda>v. fdiv v (fsum prob)) prob)))"

text \<open>
  \<open>make_answer\<close>; \<open>prob\<close> is bound only when \<open>'prob'\<close> or \<open>'best'\<close> was asked for, and
  only those two names read it (reading it unbound would be a \<open>NameError\<close>). Any other
  name falls through both tests and gives \<open>None\<close>.
\<close>

definition make_answer :: "npfloat list option \<Rightarrow> string \<Rightarrow> pyerror + answer_value" where
  "make_answer prob t =
     (if t = ''prob'' then
        (case prob of None \<Rightarrow> Inl NameError | Some p \<Rightarrow> Inr (Prob p))
      else if t = ''best'' then
        (case prob of
           None \<Rightarrow> Inl NameError
         | Some p \<Rightarrow> (case argmax p of Inl e \<Rightarrow> Inl e | Inr i \<Rightarrow> Inr (Best i)))
      else Inr PyNone)"

fun map_answer :: "npfloat list option \<Rightarrow> string list \<Rightarrow> pyerror + answer_value list" where
  "map_answer prob [] = Inr []"
| "map_answer prob (t # ts) =
     (case make_answer prob t of
        Inl e \<Rightarrow> Inl e
      | Inr v \<Rightarrow> (case map_answer prob ts of Inl e \<Rightarrow> Inl e | Inr vs \<Rightarrow> Inr (v # vs)))"

text \<open>\<open>if single: which = [which]\<close>: the names asked for, as a list.\<close>

fun requested :: "which \<Rightarrow> string list" where
  "requested (Name t) = [t]"
| "requested (Names ts) = ts"

definition answer :: "Classification \<Rightarrow> buffer list \<Rightarrow> which \<Rightarrow> pyerror + answer_result" where
  "answer self stats_list wh =
     (let names = requested wh in
      case (if ''prob'' \<in> set names \<or> ''best'' \<in> set names
            then (case combined self stats_list of Inl e \<Rightarrow> Inl e | Inr p \<Rightarrow> Inr (Some p))
            else Inr None) of
        Inl e \<Rightarrow> Inl e
      | Inr prob \<Rightarrow>
          (case map_answer prob names of
             Inl e \<Rightarrow> Inl e
           | Inr ret \<Rightarrow>
               (case wh of Name t \<Rightarrow> Inr (One (hd ret)) | Names ts \<Rightarrow> Inr (Tuple ret))))"

definition summary :: "Classification \<Rightarrow> exemplars \<Rightarrow> nat list \<Rightarrow> npfloat list option
    \<Rightarrow> pyerror + buffer" where
  "summary self es index weights =
     (case bincount_of self es index weights of
        Inl e \<Rightarrow> Inl e
      | Inr ret \<Rightarrow> Inr (tostring (pad self ret)))"

definition updateSummary :: "Classification \<Rightarrow> buffer \<Rightarrow> exemplars \<Rightarrow> nat list
    \<Rightarrow> npfloat list option \<Rightarrow> pyerror + buffer" where
  "updateSummary self summ es index weights =
     (case fromstring summ of
        Inl e \<Rightarrow> Inl e
      | Inr ret \<Rightarrow>
          (case bincount_of self es index weights of
             Inl e \<Rightarrow> Inl e
           | Inr toAdd \<Rightarrow>
               (case inplace fadd (take (length toAdd) ret) toAdd of
                  Inl e \<Rightarrow> Inl e
                | Inr low \<Rightarrow> Inr (tostring (low @ drop (length toAdd) ret)))))"

definition error :: "Classification \<Rightarrow> buffer \<Rightarrow> buffer \<Rightarrow> pyerror + npfloat \<times> npfloat" where
  "error self st summ =
     (case fromstring st of
        Inl e \<Rightarrow> Inl e
      | Inr hist \<Rightarrow>
          (let dst = map (\<lambda>v. fdiv v (fsum hist)) hist in
           case fromstring summ of
             Inl e \<Rightarrow> Inl e
           | Inr test \<Rightarrow>
               (let count = fsum test in
                case broadcast fmul (map (\<lambda>d. fsub (Fin 1) d) dst) test of
                  Inl e \<Rightarrow> Inl e
                | Inr terms \<Rightarrow> Inr (fdiv (fsum terms) count, count))))"

subsection \<open>Histograms over the reals\<close>

text \<open>
  What the statements below compare the code with. \<open>hist n ps\<close> is the histogram with
  \<open>n\<close> bins of the (label, weight) pairs \<open>ps\<close>: bin \<open>k\<close> sums the weights of the pairs
  labelled \<open>k\<close>.
\<close>

definition hist :: "nat \<Rightarrow> (int \<times> real) list \<Rightarrow> real list" where
  "hist n ps = map (\<lambda>k. sum_list (map snd (filter (\<lambda>p. nat (fst p) = k) ps))) [0..<n]"

text \<open>
  The conditions of the data model: every exemplar of \<open>index\<close> has a label in
  \<open>[0, classCount)\<close>; the weights, when given, cover \<open>index\<close> and are finite and not
  negative there.
\<close>

definition labelled :: "Classification \<Rightarrow> exemplars \<Rightarrow> nat list \<Rightarrow> bool" where
  "labelled self es index =
     list_all (\<lambda>i. case es (channel self) i of
                      None \<Rightarrow> False
                    | Some v \<Rightarrow> 0 \<le> v \<and> v < classCount self) index"

definition weighted :: "npfloat list option \<Rightarrow> nat list \<Rightarrow> bool" where
  "weighted weights index =
     (case weights of
        None \<Rightarrow> True
      | Some w \<Rightarrow> list_all (\<lambda>i. i < length w \<and> (case w ! i of Fin x \<Rightarrow> 0 \<le> x | _ \<Rightarrow> False)) index)"

text \<open>
  The (label, weight) pair of an exemplar, and the histogram of an index set with
  \<open>classCount\<close> bins.
\<close>

definition sample :: "Classification \<Rightarrow> exemplars \<Rightarrow> npfloat list option \<Rightarrow> nat \<Rightarrow> int \<times> real" where
  "sample self es weights i =
     (case es (channel self) i of None \<Rightarrow> 0 | Some v \<Rightarrow> v,
      case weights of
        None \<Rightarrow> 1
      | Some w \<Rightarrow> (case w ! i of Fin x \<Rightarrow> x | _ \<Rightarrow> 0))"

definition tally :: "Classification \<Rightarrow> exemplars \<Rightarrow> npfloat list option \<Rightarrow> nat list \<Rightarrow> real list" where
  "tally self es weights index = hist (nat (classCount self)) (map (sample self es weights) index)"

text \<open>
  A stats or summary entity of the data model: \<open>classCount\<close> cells and no byte
  beyond them, every cell a finite number that is not negative.
\<close>

definition entity :: "Classification \<Rightarrow> buffer \<Rightarrow> bool" where
  "entity self b =
     (spare b = 0 \<and> int (length (cells b)) = classCount self \<and>
      list_all (\<lambda>v. case v of Fin x \<Rightarrow> 0 \<le> x | _ \<Rightarrow> False) (cells b))"

subsection \<open>The scenario of the specification\<close>

text \<open>
  Three classes, six training exemplars with the labels 0, 0, 1, 2, 2, 2 in channel 0.
\<close>

definition example_goal :: Classification where
  "example_goal = \<lparr> classCount = 3, channel = 0 \<rparr>"

definition example_es :: exemplars where
  "example_es c i = (if c = 0 then nth_opt [0, 0, 1, 2, 2, 2] i else None)"

subsection \<open>Distributions over the reals\<close>

text \<open>
  A histogram divided by its sum, and the combined distribution of a list of
  histograms with \<open>n\<close> entries each: every histogram normalised, the results added up
  entry by entry starting from zeros, and the total normalised again.
\<close>

definition normalized :: "real list \<Rightarrow> real list" where
  "normalized h = map (\<lambda>x. x / sum_list h) h"

definition combined_dist :: "nat \<Rightarrow> real list list \<Rightarrow> real list" where
  "combined_dist n hs =
     normalized (foldl (\<lambda>acc h. map2 (+) acc (normalized h)) (replicate n 0) hs)"

text \<open>The running total of the normalised histograms, starting from \<open>a\<close>.\<close>

definition step_sum :: "real list \<Rightarrow> real list list \<Rightarrow> real list" where
  "step_sum a hs = foldl (\<lambda>acc h. map2 (+) acc (normalized h)) a hs"

text \<open>
  \<open>i\<close> is the index of the first maximum of \<open>p\<close>: no entry is larger than \<open>p ! i\<close>
  and every entry before \<open>i\<close> is smaller.
\<close>

definition first_max :: "real list \<Rightarrow> nat \<Rightarrow> bool" where
  "first_max p i =
     (i < length p \<and> list_all (\<lambda>x. x \<le> p ! i) p \<and> list_all (\<lambda>x. x < p ! i) (take i p))"

section \<open>Properties\<close>

subsection \<open>Sums, bins and histograms\<close>

lemma foldl_fadd_Fin: "foldl fadd (Fin a) (map Fin xs) = Fin (a + sum_list xs)"
  by (induction xs arbitrary: a) (simp_all add: add.assoc)

lemma fsum_Fin: "fsum (map Fin xs) = Fin (sum_list xs)"
  by (simp add: fsum_def foldl_fadd_Fin)

lemma length_hist [simp]: "length (hist n ps) = n"
  by (simp add: hist_def)

lemma nth_hist: "k < n \<Longrightarrow> hist n ps ! k = sum_list (map snd (filter (\<lambda>p. nat (fst p) = k) ps))"
  by (simp add: hist_def)

lemma hist_Nil [simp]: "hist n [] = replicate n 0"
  by (simp add: hist_def map_replicate_const)

lemma bincount_loop:
  "list_all (\<lambda>p. nat (fst p) < length h) ps \<Longrightarrow>
   foldl (\<lambda>ans (v, wv). ans[nat v := fadd (ans ! nat v) wv]) (map Fin h)
     (map (\<lambda>p. (fst p, Fin (snd p))) ps)
   = map Fin (map2 (+) h (hist (length h) ps))"
proof (induction ps arbitrary: h)
  case Nil
  show ?case by (simp add: list_eq_iff_nth_eq)
next
  case (Cons p ps)
  obtain v w where p: "p = (v, w)" by (cases p)
  from Cons.prems have v: "nat v < length h" and rest: "list_all (\<lambda>p. nat (fst p) < length h) ps"
    by (simp_all add: p)
  let ?h = "h[nat v := h ! nat v + w]"
  have step: "(map Fin h)[nat v := fadd (map Fin h ! nat v) (Fin w)] = map Fin ?h"
    using v by (simp add: map_update)
  have "map2 (+) ?h (hist (length h) ps) = map2 (+) h (hist (length h) (p # ps))"
    using v by (auto simp: list_eq_iff_nth_eq nth_hist p nth_list_update)
  with Cons.IH [of ?h] rest step show ?case
    by (simp add: p)
qed

lemma lookup_all_labels:
  "labelled self es index \<Longrightarrow>
   lookup_all (es (channel self)) index = Inr (map (\<lambda>i. fst (sample self es weights i)) index)"
  by (induction index) (auto simp: labelled_def sample_def split: option.splits)

lemma lookup_all_weights:
  "weighted (Some w) index \<Longrightarrow>
   lookup_all (nth_opt w) index = Inr (map (\<lambda>i. Fin (snd (sample self es (Some w) i))) index)"
  by (induction index) (auto simp: weighted_def sample_def nth_opt_def split: npfloat.splits)

lemma foldr_max_ge: "v \<in> set xs \<Longrightarrow> v \<le> foldr max xs (0::int)"
  by (induction xs) auto

lemma foldr_max_nonneg: "0 \<le> foldr max xs (0::int)"
  by (induction xs) auto

lemma foldr_max_less: "list_all (\<lambda>v. v < n) xs \<Longrightarrow> 0 < n \<Longrightarrow> foldr max xs (0::int) < n"
  by (induction xs) auto

lemma add_zeros: "length h = m \<Longrightarrow> map2 (+) (replicate m (0::real)) h = h"
  by (simp add: list_eq_iff_nth_eq)

lemma bincount_Fin:
  assumes "xs \<noteq> []" and "list_all (\<lambda>v. 0 \<le> v) xs" and "length ws = length xs"
  shows "bincount xs (Some (map Fin ws))
         = Inr (map Fin (hist (nat (foldr max xs 0) + 1) (zip xs ws)))"
proof -
  define m where "m = nat (foldr max xs 0) + 1"
  define step where "step = (\<lambda>ans (v, wv). ans[nat v := fadd (ans ! nat v) wv])"
  have neg: "\<not> list_ex (\<lambda>v. v < 0) xs"
    using assms(2) by (auto simp: list_all_iff list_ex_iff)
  have zip: "zip xs (map Fin ws) = map (\<lambda>p. (fst p, Fin (snd p))) (zip xs ws)"
    by (simp add: zip_map2 case_prod_unfold)
  have bound: "list_all (\<lambda>p. nat (fst p) < length (replicate m (0::real))) (zip xs ws)"
  proof -
    have "nat v < m" if "v \<in> set xs" for v
      using foldr_max_ge [OF that] by (simp add: m_def)
    then show ?thesis
      by (auto simp: list_all_iff dest: set_zip_leftD)
  qed
  have rep: "replicate m (Fin 0) = map Fin (replicate m 0)"
    by simp
  have "bincount xs (Some (map Fin ws)) = Inr (foldl step (replicate m (Fin 0)) (zip xs (map Fin ws)))"
    using assms(1,3) neg by (simp add: bincount_def m_def step_def)
  also have "foldl step (replicate m (Fin 0)) (zip xs (map Fin ws))
      = map Fin (map2 (+) (replicate m 0) (hist (length (replicate m (0::real))) (zip xs ws)))"
    unfolding zip rep step_def by (rule bincount_loop [OF bound])
  also have "map2 (+) (replicate m 0) (hist (length (replicate m (0::real))) (zip xs ws))
      = hist m (zip xs ws)"
    by (simp add: add_zeros)
  finally show ?thesis
    by (simp add: m_def)
qed

lemma bincount_None:
  "bincount xs None = bincount xs (Some (map Fin (replicate (length xs) 1)))"
  by (simp add: bincount_def)

lemma hist_pad:
  assumes "list_all (\<lambda>p. nat (fst p) < m) ps" and "m \<le> n"
  shows "hist m ps @ replicate (n - m) 0 = hist n ps"
proof -
  have empty: "filter (\<lambda>p. nat (fst p) = k) ps = []" if "m \<le> k" for k
    using assms(1) that by (auto simp: list_all_iff filter_empty_conv)
  show ?thesis
  proof (rule nth_equalityI)
    show "length (hist m ps @ replicate (n - m) 0) = length (hist n ps)"
      using assms(2) by simp
  next
    fix k assume "k < length (hist m ps @ replicate (n - m) 0)"
    then have k: "k < n" using assms(2) by simp
    show "(hist m ps @ replicate (n - m) 0) ! k = hist n ps ! k"
    proof (cases "k < m")
      case True
      then show ?thesis using k by (simp add: nth_append nth_hist)
    next
      case False
      then have "m \<le> k" by simp
      from empty [OF this] False k show ?thesis
        by (simp add: nth_append nth_hist)
    qed
  qed
qed

lemma bincount_of_hist:
  assumes lab: "labelled self es index" and wt: "weighted weights index" and ne: "index \<noteq> []"
  shows "bincount_of self es index weights
         = Inr (map Fin (hist (nat (foldr max (map (\<lambda>i. fst (sample self es weights i)) index) 0) + 1)
                           (map (sample self es weights) index)))"
proof -
  define xs where "xs = map (\<lambda>i. fst (sample self es weights i)) index"
  define ws where "ws = map (\<lambda>i. snd (sample self es weights i)) index"
  have xs: "xs \<noteq> []" using ne by (simp add: xs_def)
  have nonneg: "list_all (\<lambda>v. 0 \<le> v) xs"
    using lab by (auto simp: xs_def labelled_def sample_def list_all_iff split: option.splits)
  have zip: "zip xs ws = map (sample self es weights) index"
    by (simp add: xs_def ws_def zip_map_map zip_same_conv_map)
  have len: "length ws = length xs" by (simp add: xs_def ws_def)
  have labels: "lookup_all (es (channel self)) index = Inr xs"
    unfolding xs_def by (rule lookup_all_labels [OF lab])
  have main: "bincount xs (Some (map Fin ws))
      = Inr (map Fin (hist (nat (foldr max xs 0) + 1) (map (sample self es weights) index)))"
    using bincount_Fin [OF xs nonneg len] by (simp only: zip)
  have "bincount_of self es index weights = bincount xs (Some (map Fin ws))"
  proof (cases weights)
    case None
    have "ws = replicate (length xs) 1"
      by (simp add: ws_def xs_def None sample_def map_replicate_const)
    then have "bincount xs None = bincount xs (Some (map Fin ws))"
      by (simp only: bincount_None)
    then show ?thesis
      by (simp add: bincount_of_def None labels)
  next
    case (Some w)
    have "lookup_all (nth_opt w) index = Inr (map Fin ws)"
      using lookup_all_weights [OF wt [unfolded Some], of self es]
      by (simp add: ws_def Some)
    then show ?thesis
      by (simp add: bincount_of_def Some labels)
  qed
  with main show ?thesis
    by (simp only: xs_def)
qed

lemma labels_in_range:
  assumes "labelled self es index"
  shows "list_all (\<lambda>p. 0 \<le> fst p \<and> fst p < classCount self) (map (sample self es weights) index)"
  using assms by (auto simp: labelled_def sample_def list_all_iff split: option.splits)

lemma bincount_of_tally:
  assumes lab: "labelled self es index" and wt: "weighted weights index" and ne: "index \<noteq> []"
  obtains m where "m \<le> nat (classCount self)"
    and "bincount_of self es index weights = Inr (map Fin (take m (tally self es weights index)))"
    and "drop m (tally self es weights index) = replicate (nat (classCount self) - m) 0"
proof -
  define ps where "ps = map (sample self es weights) index"
  define m where "m = nat (foldr max (map fst ps) 0) + 1"
  define n where "n = nat (classCount self)"
  have rng: "list_all (\<lambda>p. 0 \<le> fst p \<and> fst p < classCount self) ps"
    unfolding ps_def by (rule labels_in_range [OF lab])
  have "ps \<noteq> []" using ne by (simp add: ps_def)
  then obtain p where "p \<in> set ps" by (cases ps) auto
  with rng have pos: "0 < classCount self" by (auto simp: list_all_iff)
  have "list_all (\<lambda>v. v < classCount self) (map fst ps)"
    using rng by (auto simp: list_all_iff)
  from foldr_max_less [OF this pos] foldr_max_nonneg [of "map fst ps"] have mn: "m \<le> n"
    unfolding m_def n_def by linarith
  have "nat (fst p) < m" if "p \<in> set ps" for p
    using foldr_max_ge [of "fst p" "map fst ps"] that by (simp add: m_def)
  then have "list_all (\<lambda>p. nat (fst p) < m) ps"
    by (simp add: list_all_iff)
  from hist_pad [OF this mn] have hp: "hist m ps @ replicate (n - m) 0 = hist n ps" .
  have t: "tally self es weights index = hist m ps @ replicate (n - m) 0"
    unfolding tally_def using hp by (simp add: ps_def n_def)
  have "bincount_of self es index weights = Inr (map Fin (hist m ps))"
    using bincount_of_hist [OF lab wt ne] by (simp add: m_def ps_def comp_def)
  moreover have "take m (tally self es weights index) = hist m ps"
    by (simp add: t)
  moreover have "drop m (tally self es weights index) = replicate (n - m) 0"
    by (simp add: t)
  ultimately show ?thesis
    using mn that by (simp add: n_def)
qed

lemma length_tally [simp]: "length (tally self es weights index) = nat (classCount self)"
  by (simp add: tally_def)

lemma pad_take:
  assumes "m \<le> nat (classCount self)" and "length t = nat (classCount self)"
    and "drop m t = replicate (nat (classCount self) - m) 0"
  shows "pad self (map Fin (take m t)) = map Fin t"
proof -
  have "map Fin t = map Fin (take m t) @ map Fin (drop m t)"
    by (simp flip: map_append)
  also have "\<dots> = map Fin (take m t) @ replicate (nat (classCount self) - m) (Fin 0)"
    by (simp add: assms(3))
  finally show ?thesis
    using assms(1,2) by (auto simp: pad_def min_def nat_diff_distrib')
qed

lemma stats_tally:
  assumes "0 \<le> classCount self" and "labelled self es index" and "weighted weights index"
  shows "stats self es index weights = Inr (tostring (map Fin (tally self es weights index)))"
proof (cases "index = []")
  case True
  have "pad self (replicate (nat (classCount self)) (Fin 0)) = replicate (nat (classCount self)) (Fin 0)"
    using assms(1) by (simp add: pad_def)
  then show ?thesis
    using assms(1) by (simp add: True stats_def zeros_def tally_def)
next
  case False
  from bincount_of_tally [OF assms(2,3) False] obtain m where
    m: "m \<le> nat (classCount self)"
    "bincount_of self es index weights = Inr (map Fin (take m (tally self es weights index)))"
    "drop m (tally self es weights index) = replicate (nat (classCount self) - m) 0"
    by blast
  from pad_take [OF m(1) length_tally m(3)] m(2) False show ?thesis
    by (simp add: stats_def)
qed

lemma summary_tally:
  assumes "index \<noteq> []" and "labelled self es index" and "weighted weights index"
  shows "summary self es index weights = Inr (tostring (map Fin (tally self es weights index)))"
proof -
  from bincount_of_tally [OF assms(2,3,1)] obtain m where
    m: "m \<le> nat (classCount self)"
    "bincount_of self es index weights = Inr (map Fin (take m (tally self es weights index)))"
    "drop m (tally self es weights index) = replicate (nat (classCount self) - m) 0"
    by blast
  from pad_take [OF m(1) length_tally m(3)] m(2) show ?thesis
    by (simp add: summary_def)
qed

lemma fromstring_tostring [simp]: "fromstring (tostring arr) = Inr arr"
  by (simp add: fromstring_def tostring_def nbytes_def)

lemma inplace_fadd_Fin:
  "length a = length b \<Longrightarrow> inplace fadd (map Fin a) (map Fin b) = Inr (map Fin (map2 (+) a b))"
  by (auto simp: inplace_def zip_map_map)

lemma updateStats_tally:
  assumes len: "length h = nat (classCount self)" and ne: "index \<noteq> []"
    and lab: "labelled self es index" and wt: "weighted weights index"
  shows "updateStats self (tostring (map Fin h)) es index weights
         = Inr (tostring (map Fin (map2 (+) h (tally self es weights index))))"
proof -
  define t where "t = tally self es weights index"
  from bincount_of_tally [OF lab wt ne] obtain m where
    m: "m \<le> nat (classCount self)"
    "bincount_of self es index weights = Inr (map Fin (take m t))"
    "drop m t = replicate (nat (classCount self) - m) 0"
    unfolding t_def by blast
  have lt: "length t = length h" by (simp add: t_def len)
  have lm: "min (length t) m = m" using m(1) lt len by simp
  have lens: "length (take m h) = length (take m t)" using lt by simp
  have low: "inplace fadd (take m (map Fin h)) (map Fin (take m t))
      = Inr (map Fin (map2 (+) (take m h) (take m t)))"
    using inplace_fadd_Fin [OF lens] by (simp add: take_map)
  have "map2 (+) h t = map2 (+) (take m h @ drop m h) (take m t @ drop m t)"
    by simp
  also have "\<dots> = map2 (+) (take m h) (take m t) @ map2 (+) (drop m h) (drop m t)"
    using lens by (simp only: zip_append map_append)
  also have "map2 (+) (drop m h) (drop m t) = drop m h"
    using len by (simp add: m(3) list_eq_iff_nth_eq)
  finally have "map Fin (map2 (+) h t)
      = map Fin (map2 (+) (take m h) (take m t)) @ drop m (map Fin h)"
    by (simp add: drop_map)
  then show ?thesis
    using low by (simp add: updateStats_def m(2) lm flip: t_def)
qed

lemma hist_mset:
  assumes "mset I = mset I1 + mset I2"
  shows "hist n (map f I) = map2 (+) (hist n (map f I1)) (hist n (map f I2))"
proof -
  have "sum_list (map snd (filter P (map f I)))
      = sum_list (map snd (filter P (map f I1))) + sum_list (map snd (filter P (map f I2)))" for P
  proof -
    have "mset (map snd (filter P (map f I)))
        = mset (map snd (filter P (map f I1))) + mset (map snd (filter P (map f I2)))"
      by (simp add: assms)
    then have "sum_mset (mset (map snd (filter P (map f I))))
        = sum_mset (mset (map snd (filter P (map f I1))) + mset (map snd (filter P (map f I2))))"
      by (rule arg_cong)
    then show ?thesis
      by (simp only: sum_mset_sum_list sum_mset.union)
  qed
  then show ?thesis
    by (simp add: list_eq_iff_nth_eq nth_hist)
qed

lemma hist_nonneg:
  assumes "list_all (\<lambda>p. 0 \<le> snd p) ps"
  shows "list_all (\<lambda>x. 0 \<le> x) (hist n ps)"
proof -
  have "0 \<le> sum_list (map snd (filter P ps))" for P
    using assms by (intro sum_list_nonneg) (auto simp: list_all_iff)
  then show ?thesis
    by (simp add: hist_def list_all_iff)
qed

lemma tally_nonneg:
  assumes "weighted weights index"
  shows "list_all (\<lambda>x. 0 \<le> x) (tally self es weights index)"
proof -
  have "list_all (\<lambda>p. 0 \<le> snd p) (map (sample self es weights) index)"
    using assms by (auto simp: weighted_def sample_def list_all_iff split: option.splits npfloat.splits)
  then show ?thesis
    unfolding tally_def by (rule hist_nonneg)
qed

lemma entity_Fin:
  assumes "entity self b"
  obtains h where "b = tostring (map Fin h)" and "length h = nat (classCount self)"
    and "list_all (\<lambda>x. 0 \<le> x) h"
proof -
  define h where "h = map (\<lambda>v. case v of Fin x \<Rightarrow> x | _ \<Rightarrow> 0) (cells b)"
  have "map Fin h = cells b"
    using assms by (auto simp: h_def entity_def list_all_iff list_eq_iff_nth_eq split: npfloat.splits)
  moreover have "spare b = 0" using assms by (simp add: entity_def)
  ultimately have "b = tostring (map Fin h)"
    by (cases b) (simp add: tostring_def)
  moreover have "length h = nat (classCount self)"
    using assms by (auto simp: h_def entity_def)
  moreover have "list_all (\<lambda>x. 0 \<le> x) h"
    using assms by (auto simp: h_def entity_def list_all_iff split: npfloat.splits)
  ultimately show ?thesis using that by blast
qed

lemma entity_tostring:
  assumes "length h = nat (classCount self)" and "0 \<le> classCount self" and "list_all (\<lambda>x. 0 \<le> x) h"
  shows "entity self (tostring (map Fin h))"
  using assms by (simp add: entity_def tostring_def list_all_iff)

lemma updateStats_additive:
  assumes "labelled self es I1" and "labelled self es I2"
    and "weighted weights I1" and "weighted weights I2"
    and "I2 \<noteq> []" and "mset I = mset I1 + mset I2"
  shows "\<exists>st. stats self es I1 weights = Inr st \<and>
              updateStats self st es I2 weights = stats self es I weights"
proof -
  have setI: "set I = set I1 \<union> set I2"
    using assms(6) by (metis set_mset_mset set_mset_union)
  have labI: "labelled self es I"
    using assms(1,2) setI by (auto simp: labelled_def list_all_iff)
  have wtI: "weighted weights I"
    using assms(3,4) setI by (auto simp: weighted_def list_all_iff split: option.splits)
  obtain i where "i \<in> set I2" using assms(5) by (cases I2) auto
  with assms(2) have pos: "0 \<le> classCount self"
    by (auto simp: labelled_def list_all_iff split: option.splits)
  have "map2 (+) (tally self es weights I1) (tally self es weights I2) = tally self es weights I"
    unfolding tally_def by (rule hist_mset [OF assms(6), symmetric])
  then show ?thesis
    using stats_tally [OF pos assms(1,3)] stats_tally [OF pos labI wtI]
      updateStats_tally [OF length_tally assms(5,2,4), where ?es1 = es and ?weights1 = weights and ?index1 = I1]
    by simp
qed

subsection \<open>The update and summary operations beside \<open>stats\<close>\<close>

lemma updateSummary_is_updateStats:
  "updateSummary self s es index weights = updateStats self s es index weights"
  by (simp add: updateSummary_def updateStats_def)

lemma summary_is_stats:
  "index \<noteq> [] \<Longrightarrow> summary self es index weights = stats self es index weights"
  by (simp add: summary_def stats_def)

lemma bincount_of_empty: "bincount_of self es [] weights = Inl ValueError_bincount_empty"
  by (cases weights) (simp_all add: bincount_of_def bincount_def)

subsection \<open>Normalising, combining and the first maximum\<close>

lemma fdiv_Fin_map:
  "c \<noteq> 0 \<Longrightarrow> map (\<lambda>v. fdiv v (Fin c)) (map Fin h) = map Fin (map (\<lambda>x. x / c) h)"
  by simp

lemma normalize_Fin:
  "sum_list h \<noteq> 0 \<Longrightarrow>
   map (\<lambda>v. fdiv v (Fin (sum_list h))) (map Fin h) = map Fin (normalized h)"
  by (simp add: normalized_def)

lemma map2_Fin:
  "(\<And>x y. f (Fin x) (Fin y) = Fin (g x y)) \<Longrightarrow>
   map2 f (map Fin a) (map Fin b) = map Fin (map2 g a b)"
  by (auto simp: zip_map_map)

lemma error_Fin:
  assumes "length h = length s" and "sum_list h \<noteq> 0" and "sum_list s \<noteq> 0"
  shows "error self (tostring (map Fin h)) (tostring (map Fin s))
         = Inr (Fin ((\<Sum>(d, t)\<leftarrow>zip (normalized h) s. (1 - d) * t) / sum_list s),
                Fin (sum_list s))"
proof -
  have ones: "map (\<lambda>d. fsub (Fin 1) d) (map Fin (normalized h))
      = map Fin (map (\<lambda>d. 1 - d) (normalized h))"
    by (simp add: fsub_def)
  have len: "length (map (\<lambda>d. 1 - d) (normalized h)) = length s"
    using assms(1) by (simp add: normalized_def)
  have "map2 (*) (map (\<lambda>d. 1 - d) (normalized h)) s
      = map (\<lambda>(d, t). (1 - d) * t) (zip (normalized h) s)"
    by (simp add: zip_map1 case_prod_unfold)
  then have prod: "broadcast fmul (map Fin (map (\<lambda>d. 1 - d) (normalized h))) (map Fin s)
      = Inr (map Fin (map (\<lambda>(d, t). (1 - d) * t) (zip (normalized h) s)))"
    using len map2_Fin [of fmul "(*)" "map (\<lambda>d. 1 - d) (normalized h)" s]
    by (simp add: broadcast_def)
  have "error self (tostring (map Fin h)) (tostring (map Fin s))
      = Inr (fdiv (Fin (sum_list (map (\<lambda>(d, t). (1 - d) * t) (zip (normalized h) s))))
               (Fin (sum_list s)), Fin (sum_list s))"
    by (simp only: error_def fromstring_tostring sum.case Let_def normalize_Fin [OF assms(2)]
        ones prod fsum_Fin)
  then show ?thesis
    using assms(3) by simp
qed

lemma length_normalized [simp]: "length (normalized h) = length h"
  by (simp add: normalized_def)

lemma sum_list_divide: "sum_list (map (\<lambda>x. x / c) h) = sum_list h / (c :: real)"
  by (induction h) (simp_all add: add_divide_distrib)

lemma sum_list_normalized: "sum_list h \<noteq> 0 \<Longrightarrow> sum_list (normalized h) = 1"
  by (simp add: normalized_def sum_list_divide)

lemma sum_list_map2_add:
  "length a = length b \<Longrightarrow> sum_list (map2 (+) a b) = sum_list a + sum_list (b :: real list)"
  by (induction a b rule: list_induct2) simp_all

lemma step_sum_props:
  assumes "list_all (\<lambda>h. length h = length a \<and> sum_list h \<noteq> 0) hs"
  shows "length (step_sum a hs) = length a \<and>
         sum_list (step_sum a hs) = sum_list a + real (length hs)"
  using assms
proof (induction hs arbitrary: a)
  case Nil
  show ?case by (simp add: step_sum_def)
next
  case (Cons h hs)
  let ?a = "map2 (+) a (normalized h)"
  from Cons.prems have h: "length h = length a" "sum_list h \<noteq> 0"
    and rest: "list_all (\<lambda>h. length h = length ?a \<and> sum_list h \<noteq> 0) hs"
    by simp_all
  have "sum_list ?a = sum_list a + 1"
    using h by (simp add: sum_list_map2_add sum_list_normalized)
  with Cons.IH [OF rest] h show ?case
    by (simp add: step_sum_def)
qed

lemma accumulate_Fin:
  assumes "list_all (\<lambda>h. length h = length a \<and> sum_list h \<noteq> 0) hs"
  shows "accumulate (map Fin a) (map (\<lambda>h. tostring (map Fin h)) hs)
         = Inr (map Fin (step_sum a hs))"
  using assms
proof (induction hs arbitrary: a)
  case Nil
  show ?case by (simp add: step_sum_def)
next
  case (Cons h hs)
  let ?a = "map2 (+) a (normalized h)"
  from Cons.prems have h: "length h = length a" "sum_list h \<noteq> 0"
    and rest: "list_all (\<lambda>h. length h = length ?a \<and> sum_list h \<noteq> 0) hs"
    by simp_all
  have add: "inplace fadd (map Fin a) (map Fin (normalized h)) = Inr (map Fin ?a)"
    using h(1) by (intro inplace_fadd_Fin) simp
  have "accumulate (map Fin a) (map (\<lambda>h. tostring (map Fin h)) (h # hs))
      = accumulate (map Fin ?a) (map (\<lambda>h. tostring (map Fin h)) hs)"
    by (simp only: list.map accumulate.simps fromstring_tostring sum.case fsum_Fin
        normalize_Fin [OF h(2)] add)
  with Cons.IH [OF rest] show ?case
    by (simp add: step_sum_def)
qed

lemma combined_Fin:
  assumes "hs \<noteq> []"
    and "list_all (\<lambda>h. length h = nat (classCount self) \<and> sum_list h \<noteq> 0) hs"
  shows "combined self (map (\<lambda>h. tostring (map Fin h)) hs)
         = Inr (map Fin (combined_dist (nat (classCount self)) hs))"
    and "sum_list (combined_dist (nat (classCount self)) hs) = 1"
    and "length (combined_dist (nat (classCount self)) hs) = nat (classCount self)"
    and "0 < classCount self"
proof -
  define n where "n = nat (classCount self)"
  define z where "z = replicate n (0::real)"
  have hs: "list_all (\<lambda>h. length h = length z \<and> sum_list h \<noteq> 0) hs"
    using assms(2) by (simp add: z_def n_def)
  from assms obtain h where "h \<in> set hs" by (cases hs) auto
  with assms(2) have "length h = nat (classCount self)" "sum_list h \<noteq> 0"
    by (auto simp: list_all_iff)
  then have "h \<noteq> []" by auto
  with \<open>length h = nat (classCount self)\<close> show pos: "0 < classCount self"
    by (cases "0 < classCount self") auto
  from step_sum_props [OF hs] have len: "length (step_sum z hs) = n"
    and total: "sum_list (step_sum z hs) = real (length hs)"
    by (simp_all add: z_def sum_list_replicate)
  have nz: "sum_list (step_sum z hs) \<noteq> 0"
    using assms(1) total by simp
  have cd: "combined_dist (nat (classCount self)) hs = normalized (step_sum z hs)"
    by (simp add: combined_dist_def step_sum_def z_def n_def)
  have zf: "zeros (classCount self) = Inr (map Fin z)"
    using pos by (simp add: zeros_def z_def n_def)
  have "combined self (map (\<lambda>h. tostring (map Fin h)) hs) = Inr (map Fin (normalized (step_sum z hs)))"
    by (simp only: combined_def zf accumulate_Fin [OF hs] sum.case fsum_Fin normalize_Fin [OF nz])
  then show "combined self (map (\<lambda>h. tostring (map Fin h)) hs)
         = Inr (map Fin (combined_dist (nat (classCount self)) hs))"
    by (simp add: cd)
  show "sum_list (combined_dist (nat (classCount self)) hs) = 1"
    using sum_list_normalized [OF nz] by (simp add: cd)
  show "length (combined_dist (nat (classCount self)) hs) = nat (classCount self)"
    using len by (simp add: cd n_def)
qed

lemma argmax_from_Fin:
  assumes "mi < length pre" and "\<forall>x\<in>set pre. x \<le> pre ! mi"
    and "\<forall>x\<in>set (take mi pre). x < pre ! mi"
  shows "first_max (pre @ vs) (argmax_from (Fin (pre ! mi)) mi (length pre) (map Fin vs))"
  using assms
proof (induction vs arbitrary: pre mi)
  case Nil
  then show ?case
    by (simp add: first_max_def list_all_iff)
next
  case (Cons v vs)
  let ?pre = "pre @ [v]"
  show ?case
  proof (cases "pre ! mi < v")
    case True
    have a: "length pre < length ?pre" by simp
    have b: "\<forall>x\<in>set ?pre. x \<le> ?pre ! length pre"
      using Cons.prems(2) True by auto
    have c: "\<forall>x\<in>set (take (length pre) ?pre). x < ?pre ! length pre"
      using Cons.prems(2) True by auto
    from Cons.IH [OF a b c] True show ?thesis
      by simp
  next
    case False
    have a: "mi < length ?pre" using Cons.prems(1) by simp
    have b: "\<forall>x\<in>set ?pre. x \<le> ?pre ! mi"
      using Cons.prems(1,2) False by (auto simp: nth_append)
    have c: "\<forall>x\<in>set (take mi ?pre). x < ?pre ! mi"
      using Cons.prems(1,3) by (simp add: nth_append)
    from Cons.IH [OF a b c] False Cons.prems(1) show ?thesis
      by (simp add: nth_append)
  qed
qed

lemma argmax_Fin:
  assumes "p \<noteq> []"
  shows "\<exists>i. argmax (map Fin p) = Inr i \<and> first_max p i"
proof -
  from assms obtain v vs where p: "p = v # vs" by (cases p) auto
  have "first_max ([v] @ vs) (argmax_from (Fin ([v] ! 0)) 0 (length [v]) (map Fin vs))"
    by (rule argmax_from_Fin) simp_all
  then show ?thesis
    by (simp add: p)
qed

lemma answer_prob:
  "combined self sl = Inr p \<Longrightarrow> answer self sl (Name ''prob'') = Inr (One (Prob p))"
  by (simp add: answer_def make_answer_def)

lemma answer_best:
  "combined self sl = Inr p \<Longrightarrow> argmax p = Inr i \<Longrightarrow>
   answer self sl (Name ''best'') = Inr (One (Best i))"
  by (simp add: answer_def make_answer_def)

lemma answer_best_prob:
  "combined self sl = Inr p \<Longrightarrow> argmax p = Inr i \<Longrightarrow>
   answer self sl (Names [''best'', ''prob'']) = Inr (Tuple [Best i, Prob p])"
  by (simp add: answer_def make_answer_def)

subsection \<open>Names that \<open>answer\<close> does not know\<close>

lemma map_answer_unknown:
  "list_all (\<lambda>t. t \<noteq> ''prob'' \<and> t \<noteq> ''best'') ts \<Longrightarrow>
   map_answer prob ts = Inr (replicate (length ts) PyNone)"
  by (induction ts) (simp_all add: make_answer_def)

subsection \<open>Buffers that \<open>fromstring\<close> refuses, and buffers of another length\<close>

lemma fromstring_malformed:
  "nbytes b mod 4 \<noteq> 0 \<Longrightarrow> fromstring b = Inl ValueError_string_size"
  by (simp add: fromstring_def)

lemma fromstring_error: "fromstring b = Inl e \<Longrightarrow> e = ValueError_string_size"
  by (simp add: fromstring_def split: if_splits)

lemma inplace_error: "inplace f a b = Inl e \<Longrightarrow> e = ValueError_shape_mismatch"
  by (simp add: inplace_def split: if_splits)

lemma accumulate_malformed:
  assumes "b \<in> set stats_list" and "nbytes b mod 4 \<noteq> 0"
  shows "accumulate prob stats_list = Inl ValueError_string_size \<or>
         accumulate prob stats_list = Inl ValueError_shape_mismatch"
  using assms(1)
proof (induction stats_list arbitrary: prob)
  case Nil
  then show ?case by simp
next
  case (Cons st rest)
  show ?case
  proof (cases "fromstring st")
    case (Inl e)
    with fromstring_error [OF Inl] show ?thesis by simp
  next
    case (Inr h)
    then have "st \<noteq> b" using fromstring_malformed [OF assms(2)] by auto
    with Cons.prems have b: "b \<in> set rest" by simp
    show ?thesis
    proof (cases "inplace fadd prob (map (\<lambda>v. fdiv v (fsum h)) h)")
      case (Inl e)
      with inplace_error [OF Inl] Inr show ?thesis by simp
    next
      case (Inr prob')
      with Cons.IH [OF b, of prob'] \<open>fromstring st = Inr h\<close> show ?thesis by simp
    qed
  qed
qed

lemma answer_malformed:
  assumes "b \<in> set stats_list" and "nbytes b mod 4 \<noteq> 0"
    and "''prob'' \<in> set (requested wh) \<or> ''best'' \<in> set (requested wh)"
  shows "answer self stats_list wh \<in> {Inl ValueError_string_size, Inl ValueError_shape_mismatch,
           Inl ValueError_negative_dimensions}"
proof -
  have "combined self stats_list \<in> {Inl ValueError_string_size, Inl ValueError_shape_mismatch,
           Inl ValueError_negative_dimensions}"
    using accumulate_malformed [OF assms(1,2), of "replicate (nat (classCount self)) (Fin 0)"]
    by (auto simp: combined_def zeros_def)
  with assms(3) show ?thesis
    by (auto simp: answer_def)
qed

lemma wrong_length_nbytes: "nbytes (Buffer [Fin 1, Fin 0, Fin 0] 0) \<noteq> 4 * 2 \<and> nbytes (Buffer [Fin 5] 0) \<noteq> 4 * 2"
  by (simp add: nbytes_def)

lemma wrong_length_entropy: "entropy \<lparr>classCount = 2, channel = 0\<rparr> (Buffer [Fin 1, Fin 0, Fin 0] 0) = Inr (Fin 0)"
  by (simp add: entropy_def fromstring_def nbytes_def fsum_def)

lemma wrong_length_updateStats: "updateStats \<lparr>classCount = 2, channel = 0\<rparr> (Buffer [Fin 1, Fin 0, Fin 0] 0) example_es [0, 1] None
     = Inr (Buffer [Fin 3, Fin 0, Fin 0] 0)"
  by (simp add: updateStats_def fromstring_def nbytes_def bincount_of_def bincount_def
      example_es_def nth_opt_def inplace_def tostring_def)

lemma wrong_length_error: "error \<lparr>classCount = 2, channel = 0\<rparr> (Buffer [Fin 1, Fin 0, Fin 1] 0) (Buffer [Fin 1, Fin 1, Fin 0] 0)
     = Inr (Fin (3 / 4), Fin 2)"
  by (simp add: error_def fromstring_def nbytes_def fsum_def broadcast_def fsub_def)

lemma wrong_length_answer: "answer \<lparr>classCount = 2, channel = 0\<rparr> [Buffer [Fin 5] 0] (Name ''prob'')
     = Inr (One (Prob [Fin (1 / 2), Fin (1 / 2)]))"
  by (simp add: answer_def combined_def zeros_def fromstring_def nbytes_def fsum_def inplace_def
      make_answer_def numeral_eq_Suc)

section \<open>The claims\<close>









text \<open>
  C6. A goal constructed with \<open>classCount \<le> 0\<close>, or with a channel that does not exist,
  is refused at construction. It is not: the constructor stores what it is given. A
  negative class count shows only when \<open>stats\<close> asks numpy for that many zeros, the
  class count 0 does not show at all there, and a channel that the exemplar set does
  not have shows when the labels are read.
\<close>

theorem init_accepts_invalid_configuration:
  "init (- 1) 0 = Inr \<lparr>classCount = - 1, channel = 0\<rparr> \<and>
   stats \<lparr>classCount = - 1, channel = 0\<rparr> example_es [] None = Inl ValueError_negative_dimensions \<and>
   init 0 0 = Inr \<lparr>classCount = 0, channel = 0\<rparr> \<and>
   stats \<lparr>classCount = 0, channel = 0\<rparr> example_es [] None = Inr (tostring []) \<and>
   init 3 7 = Inr \<lparr>classCount = 3, channel = 7\<rparr> \<and>
   stats \<lparr>classCount = 3, channel = 7\<rparr> example_es [0] None = Inl IndexError"
  by (simp add: init_def stats_def zeros_def pad_def bincount_of_def example_es_def)

text \<open>
  C6, as the code has it. Construction never fails and checks nothing: for every class
  count and channel the constructor, and \<open>clone\<close>, return the goal that holds exactly
  these two values. What \<open>stats\<close> then does on an empty index depends on the sign of
  the class count alone.
\<close>

theorem init_never_fails:
  "init cc ch = Inr \<lparr>classCount = cc, channel = ch\<rparr> \<and>
   clone \<lparr>classCount = cc, channel = ch\<rparr> = Inr \<lparr>classCount = cc, channel = ch\<rparr> \<and>
   stats \<lparr>classCount = cc, channel = ch\<rparr> es [] weights
     = (if cc < 0 then Inl ValueError_negative_dimensions
        else Inr (tostring (replicate (nat cc) (Fin 0))))"
  by (simp add: init_def clone_def stats_def zeros_def pad_def)

text \<open>
  C8. A name that \<open>answer_types\<close> does not list makes \<open>answer\<close> fail. It does not:
  \<open>make_answer\<close> has no branch for it and returns \<open>None\<close>, alone or at its place in
  the tuple.
\<close>

theorem answer_unknown_name_counterexample:
  "''foo'' \<notin> set (map fst (answer_types example_goal)) \<and>
   answer example_goal [tostring [Fin 2, Fin 1, Fin 3]] (Name ''foo'') = Inr (One PyNone) \<and>
   answer example_goal [tostring [Fin 2, Fin 1, Fin 3]] (Names [''best'', ''foo''])
     = Inr (Tuple [Best 2, PyNone])"
  by (simp add: answer_types_def answer_def make_answer_def combined_def zeros_def fsum_def
      inplace_def example_goal_def numeral_eq_Suc)

text \<open>
  C8, as the code has it. For names that \<open>answer_types\<close> does not list, \<open>answer\<close>
  raises nothing, does not read the stats list, and returns \<open>None\<close> for a single name
  and a tuple of \<open>None\<close> for a list of such names.
\<close>

theorem answer_unknown_name_gives_None:
  assumes "list_all (\<lambda>t. t \<notin> set (map fst (answer_types self))) (t # ts)"
  shows "answer self stats_list (Name t) = Inr (One PyNone) \<and>
         answer self stats_list (Names (t # ts)) = Inr (Tuple (replicate (length (t # ts)) PyNone))"
proof -
  from assms have all: "list_all (\<lambda>t. t \<noteq> ''prob'' \<and> t \<noteq> ''best'') (t # ts)"
    by (auto simp: answer_types_def list_all_iff)
  then have no: "''prob'' \<notin> set (t # ts)" "''best'' \<notin> set (t # ts)"
    by (auto simp: list_all_iff)
  have one: "map_answer None [t] = Inr [PyNone]"
    using all by (simp add: make_answer_def)
  show ?thesis
    using no one map_answer_unknown [OF all, of None]
    by (simp add: answer_def del: map_answer.simps)
qed

theorem answer_unknown_name_gives_None_witness:
  "list_all (\<lambda>t. t \<notin> set (map fst (answer_types example_goal))) [''foo'', ''bar''] \<and>
   answer example_goal [tostring [Fin 2, Fin 1, Fin 3]] (Name ''foo'') = Inr (One PyNone) \<and>
   answer example_goal [tostring [Fin 2, Fin 1, Fin 3]] (Names [''foo'', ''bar''])
     = Inr (Tuple [PyNone, PyNone])"
proof -
  have a: "list_all (\<lambda>t. t \<notin> set (map fst (answer_types example_goal))) [''foo'', ''bar'']"
    by (simp add: answer_types_def)
  from answer_unknown_name_gives_None [OF a, of "[tostring [Fin 2, Fin 1, Fin 3]]"] a
  show ?thesis by (simp add: numeral_eq_Suc)
qed

text \<open>
  C10. \<open>answer\<close> does not guard the normalisation of each histogram. The all-zero
  histogram, which \<open>stats\<close> returns for an empty index, is divided by its sum 0: no
  error is raised, every entry of the \<open>'prob'\<close> answer is NaN, and \<open>'best'\<close> is taken
  from that distribution. One such histogram among others has the same effect.
\<close>

theorem answer_zero_histogram_gives_nan:
  "stats \<lparr>classCount = 2, channel = 0\<rparr> example_es [] None = Inr (tostring [Fin 0, Fin 0]) \<and>
   answer \<lparr>classCount = 2, channel = 0\<rparr> [tostring [Fin 0, Fin 0]] (Name ''prob'')
     = Inr (One (Prob [NaN, NaN])) \<and>
   answer \<lparr>classCount = 2, channel = 0\<rparr> [tostring [Fin 0, Fin 0]] (Name ''best'')
     = Inr (One (Best 0)) \<and>
   answer \<lparr>classCount = 2, channel = 0\<rparr> [tostring [Fin 4, Fin 0], tostring [Fin 0, Fin 0]]
     (Names [''best'', ''prob'']) = Inr (Tuple [Best 0, Prob [NaN, NaN]])"
  by (simp add: stats_def pad_def answer_def combined_def zeros_def inplace_def fsum_def
      make_answer_def numeral_eq_Suc)

text \<open>
  C7. A buffer whose length is not a multiple of 4, or is not \<open>4 * classCount\<close>, makes
  every operation that decodes it fail. For the second kind it does not: no operation
  compares the length with \<open>classCount\<close>. With two classes, \<open>entropy\<close>,
  \<open>updateStats\<close>, \<open>updateSummary\<close> and \<open>error\<close> take buffers of 12 bytes, and
  \<open>answer\<close> takes one of 4 bytes, whose single entry is spread over both classes.
\<close>

theorem wrong_length_buffer_accepted:
  "nbytes (Buffer [Fin 1, Fin 0, Fin 0] 0) \<noteq> 4 * 2 \<and>
   entropy \<lparr>classCount = 2, channel = 0\<rparr> (Buffer [Fin 1, Fin 0, Fin 0] 0) = Inr (Fin 0) \<and>
   updateStats \<lparr>classCount = 2, channel = 0\<rparr> (Buffer [Fin 1, Fin 0, Fin 0] 0) example_es [0, 1] None
     = Inr (Buffer [Fin 3, Fin 0, Fin 0] 0) \<and>
   updateSummary \<lparr>classCount = 2, channel = 0\<rparr> (Buffer [Fin 1, Fin 0, Fin 0] 0) example_es [0, 1] None
     = Inr (Buffer [Fin 3, Fin 0, Fin 0] 0) \<and>
   error \<lparr>classCount = 2, channel = 0\<rparr> (Buffer [Fin 1, Fin 0, Fin 1] 0) (Buffer [Fin 1, Fin 1, Fin 0] 0)
     = Inr (Fin (3 / 4), Fin 2) \<and>
   nbytes (Buffer [Fin 5] 0) \<noteq> 4 * 2 \<and>
   answer \<lparr>classCount = 2, channel = 0\<rparr> [Buffer [Fin 5] 0] (Name ''prob'')
     = Inr (One (Prob [Fin (1 / 2), Fin (1 / 2)]))"
  using wrong_length_nbytes wrong_length_entropy wrong_length_updateStats wrong_length_error wrong_length_answer
  by (simp only: updateSummary_is_updateStats simp_thms)

text \<open>
  C7, as the code has it. A buffer whose length is not a multiple of 4 is refused by
  \<open>fromstring\<close>: \<open>entropy\<close>, \<open>updateStats\<close>, \<open>updateSummary\<close> and \<open>error\<close> (with the
  buffer in either place) raise its \<open>ValueError\<close>, and \<open>answer\<close> raises a
  \<open>ValueError\<close> when \<open>'prob'\<close> or \<open>'best'\<close> is asked for and the buffer is in the list
  (that of \<open>fromstring\<close>, unless the class count is negative or an earlier entry of
  the list has the wrong shape). A buffer whose length is a multiple of 4 is decoded,
  whatever \<open>classCount\<close> is, and \<open>entropy\<close> returns a value for it.
\<close>

theorem malformed_buffer_decoding:
  "(nbytes b mod 4 \<noteq> 0 \<longrightarrow>
      entropy self b = Inl ValueError_string_size \<and>
      updateStats self b es index weights = Inl ValueError_string_size \<and>
      updateSummary self b es index weights = Inl ValueError_string_size \<and>
      error self b s = Inl ValueError_string_size \<and>
      error self s b = Inl ValueError_string_size \<and>
      (b \<in> set stats_list \<and> (''prob'' \<in> set (requested wh) \<or> ''best'' \<in> set (requested wh)) \<longrightarrow>
         answer self stats_list wh \<in> {Inl ValueError_string_size, Inl ValueError_shape_mismatch,
           Inl ValueError_negative_dimensions})) \<and>
   (nbytes b mod 4 = 0 \<longrightarrow>
      fromstring b = Inr (cells b) \<and> (\<exists>v. entropy self b = Inr v))"
proof (intro conjI impI)
  assume m: "nbytes b mod 4 \<noteq> 0"
  note f = fromstring_malformed [OF m]
  show "entropy self b = Inl ValueError_string_size"
    by (simp add: entropy_def f)
  show "updateStats self b es index weights = Inl ValueError_string_size"
    by (simp add: updateStats_def f)
  show "updateSummary self b es index weights = Inl ValueError_string_size"
    by (simp add: updateSummary_def f)
  show "error self b s = Inl ValueError_string_size"
    by (simp add: error_def f)
  show "error self s b = Inl ValueError_string_size"
    using fromstring_error [of s] by (cases "fromstring s") (simp_all add: error_def f)
  show "answer self stats_list wh \<in> {Inl ValueError_string_size, Inl ValueError_shape_mismatch,
           Inl ValueError_negative_dimensions}"
    if "b \<in> set stats_list \<and> (''prob'' \<in> set (requested wh) \<or> ''best'' \<in> set (requested wh))"
    using that answer_malformed [OF _ m] by blast
next
  assume "nbytes b mod 4 = 0"
  then show "fromstring b = Inr (cells b)"
    by (simp add: fromstring_def)
  then show "\<exists>v. entropy self b = Inr v"
    by (simp add: entropy_def Let_def)
qed

theorem malformed_buffer_decoding_witness:
  "nbytes (Buffer [Fin 1, Fin 0] 3) mod 4 \<noteq> 0 \<and>
   entropy \<lparr>classCount = 2, channel = 0\<rparr> (Buffer [Fin 1, Fin 0] 3) = Inl ValueError_string_size \<and>
   error \<lparr>classCount = 2, channel = 0\<rparr> (Buffer [Fin 1, Fin 0] 0) (Buffer [Fin 1, Fin 0] 3)
     = Inl ValueError_string_size \<and>
   Buffer [Fin 1, Fin 0] 3 \<in> set [Buffer [Fin 1, Fin 0] 3] \<and>
   ''prob'' \<in> set (requested (Name ''prob'')) \<and>
   answer \<lparr>classCount = 2, channel = 0\<rparr> [Buffer [Fin 1, Fin 0] 3] (Name ''prob'')
     = Inl ValueError_string_size \<and>
   nbytes (Buffer [Fin 1, Fin 0, Fin 0] 0) mod 4 = 0 \<and>
   fromstring (Buffer [Fin 1, Fin 0, Fin 0] 0) = Inr [Fin 1, Fin 0, Fin 0]"
proof -
  let ?g = "\<lparr>classCount = 2, channel = 0\<rparr>"
  let ?b = "Buffer [Fin 1, Fin 0] 3"
  let ?c = "Buffer [Fin 1, Fin 0, Fin 0] 0"
  have a: "nbytes ?b mod 4 \<noteq> 0" by (simp add: nbytes_def)
  have c: "nbytes ?c mod 4 = 0" by (simp add: nbytes_def)
  have d: "answer ?g [?b] (Name ''prob'') = Inl ValueError_string_size"
    by (simp add: answer_def combined_def zeros_def fromstring_def nbytes_def)
  from malformed_buffer_decoding [of ?b ?g example_es "[]" None "Buffer [Fin 1, Fin 0] 0"
      "[?b]" "Name ''prob''"] a
  have "entropy ?g ?b = Inl ValueError_string_size"
    and "error ?g (Buffer [Fin 1, Fin 0] 0) ?b = Inl ValueError_string_size"
    by blast+
  moreover from malformed_buffer_decoding [of ?c ?g] c
  have "fromstring ?c = Inr [Fin 1, Fin 0, Fin 0]"
    by simp
  ultimately show ?thesis
    using a c d by simp
qed

end
